theory Spec2Isabelle
  imports Complex_Main
begin

section \<open>Numbers\<close>

text \<open>
  A TypeScript \<open>number\<close> is modelled as an ideal real: comparison, \<open>Math.min\<close>,
  \<open>Math.max\<close>, addition and the remainder operator are the exact ones, rounding and the
  special values NaN and the infinities are left out.  Counters that the scene only ever
  increments from zero (\<open>deaths\<close>, \<open>coinCount\<close>) are natural numbers.
\<close>

type_synonym number = real

section \<open>Progress store (GameState.ts)\<close>

text \<open>
  The interfaces \<open>LevelProgress\<close> and \<open>LevelCompletionData\<close> of the schema; the field
  \<open>id\<close> of the latter is \<open>cid\<close> here.
\<close>

record LevelProgress =
  levelId :: string
  completed :: bool
  bestTimeMs :: "number option"
  bestCollectibles :: number
  totalDeaths :: number

record LevelCompletionData =
  cid :: string
  timeMs :: number
  picked :: number
  deaths :: number

text \<open>
  \<open>GameStateData\<close>: the \<open>Map\<close> from level id to progress record is a partial map, the
  nullable selected level an option.
\<close>

record GameStateData =
  selectedLevelId :: "string option"
  levelProgress :: "string \<rightharpoonup> LevelProgress"
  totalCoinsCollected :: number
  totalDeaths :: number

text \<open>The initial value of the private field \<open>state\<close> of \<open>GameStateManager\<close>.\<close>

definition initialState :: GameStateData where
  "initialState =
     \<lparr>selectedLevelId = None, levelProgress = Map.empty,
      totalCoinsCollected = 0, totalDeaths = 0\<rparr>"

text \<open>
  The object literal on the right of \<open>levelProgress.get(levelId) || {...}\<close>, used by
  \<open>updateLevelProgress\<close> and \<open>completeLevel\<close> when the level has no record yet.
\<close>

definition defaultProgress :: "string \<Rightarrow> LevelProgress" where
  "defaultProgress lid =
     \<lparr>levelId = lid, completed = False, bestTimeMs = None,
      bestCollectibles = 0, LevelProgress.totalDeaths = 0\<rparr>"

definition currentProgress :: "GameStateData \<Rightarrow> string \<Rightarrow> LevelProgress" where
  "currentProgress st lid =
     (case levelProgress st lid of Some p \<Rightarrow> p | None \<Rightarrow> defaultProgress lid)"

text \<open>
  \<open>completeLevel(levelId, data)\<close>.  \<open>saveToStorage\<close> and \<open>notifyListeners\<close>, which it
  calls last, read \<open>state\<close> and leave it as it is.
\<close>

definition completeLevel :: "string \<Rightarrow> LevelCompletionData \<Rightarrow> GameStateData \<Rightarrow> GameStateData" where
  "completeLevel lid dat st =
     (let current = currentProgress st lid;
          updated =
            \<lparr>levelId = lid,
             completed = True,
             bestTimeMs =
               (case bestTimeMs current of
                  None \<Rightarrow> Some (timeMs dat)
                | Some b \<Rightarrow> Some (min b (timeMs dat))),
             bestCollectibles = max (bestCollectibles current) (picked dat),
             LevelProgress.totalDeaths = LevelProgress.totalDeaths current + deaths dat\<rparr>
      in st\<lparr>levelProgress := (levelProgress st)(lid \<mapsto> updated),
             totalCoinsCollected := totalCoinsCollected st + picked dat,
             totalDeaths := GameStateData.totalDeaths st + deaths dat\<rparr>)"

text \<open>The getters of \<open>GameStateManager\<close>.\<close>

definition getLevelProgress :: "GameStateData \<Rightarrow> string \<Rightarrow> LevelProgress option" where
  "getLevelProgress st lid = levelProgress st lid"

definition isLevelCompleted :: "GameStateData \<Rightarrow> string \<Rightarrow> bool" where
  "isLevelCompleted st lid =
     (case levelProgress st lid of None \<Rightarrow> False | Some p \<Rightarrow> completed p)"

definition getBestTime :: "GameStateData \<Rightarrow> string \<Rightarrow> number option" where
  "getBestTime st lid =
     (case levelProgress st lid of None \<Rightarrow> None | Some p \<Rightarrow> bestTimeMs p)"

definition getBestCollectibles :: "GameStateData \<Rightarrow> string \<Rightarrow> number" where
  "getBestCollectibles st lid =
     (case levelProgress st lid of None \<Rightarrow> 0 | Some p \<Rightarrow> bestCollectibles p)"

definition getTotalCoinsCollected :: "GameStateData \<Rightarrow> number" where
  "getTotalCoinsCollected st = totalCoinsCollected st"

definition getTotalDeaths :: "GameStateData \<Rightarrow> number" where
  "getTotalDeaths st = GameStateData.totalDeaths st"

text \<open>
  The per-level death total as a caller reads it off \<open>getLevelProgress\<close>, zero while the
  level has no record.
\<close>

definition levelDeaths :: "GameStateData \<Rightarrow> string \<Rightarrow> number" where
  "levelDeaths st lid =
     (case getLevelProgress st lid of None \<Rightarrow> 0 | Some p \<Rightarrow> LevelProgress.totalDeaths p)"

text \<open>A history of \<open>completeLevel\<close> calls, oldest first, applied to a store.\<close>

fun completeAll :: "(string \<times> LevelCompletionData) list \<Rightarrow> GameStateData \<Rightarrow> GameStateData" where
  "completeAll [] st = st"
| "completeAll ((lid, dat) # cs) st = completeAll cs (completeLevel lid dat st)"

text \<open>The completion data passed for one level in a history, oldest first.\<close>

fun passedFor :: "string \<Rightarrow> (string \<times> LevelCompletionData) list \<Rightarrow> LevelCompletionData list" where
  "passedFor lid [] = []"
| "passedFor lid ((l, dat) # cs) = (if l = lid then dat # passedFor lid cs else passedFor lid cs)"

text \<open>Best times compared with \<open>null\<close> (never completed) read as plus infinity.\<close>

fun timeLeq :: "number option \<Rightarrow> number option \<Rightarrow> bool" where
  "timeLeq _ None = True"
| "timeLeq None (Some _) = False"
| "timeLeq (Some a) (Some b) = (a \<le> b)"

section \<open>Properties of the progress store\<close>

lemma completeAll_snoc:
  "completeAll (cs @ [(lid, dat)]) st = completeLevel lid dat (completeAll cs st)"
  by (induction cs arbitrary: st) auto

lemma passedFor_snoc:
  "passedFor lid (cs @ [(l, dat)]) = passedFor lid cs @ (if l = lid then [dat] else [])"
  by (induction cs) auto

lemma completeLevel_other:
  "l \<noteq> lid \<Longrightarrow> levelProgress (completeLevel l dat st) lid = levelProgress st lid"
  by (simp add: completeLevel_def Let_def)

lemma completeLevel_record:
  "levelProgress (completeLevel lid dat st) lid =
     Some \<lparr>levelId = lid, completed = True,
           bestTimeMs =
             (case bestTimeMs (currentProgress st lid) of
                None \<Rightarrow> Some (timeMs dat)
              | Some b \<Rightarrow> Some (min b (timeMs dat))),
           bestCollectibles = max (bestCollectibles (currentProgress st lid)) (picked dat),
           LevelProgress.totalDeaths =
             LevelProgress.totalDeaths (currentProgress st lid) + deaths dat\<rparr>"
  by (simp add: completeLevel_def Let_def)

lemma bestTime_step:
  "timeLeq (getBestTime (completeLevel l dat st) lid) (getBestTime st lid)"
proof (cases "l = lid")
  case True
  then show ?thesis
    by (auto simp: getBestTime_def completeLevel_record currentProgress_def defaultProgress_def
             split: option.splits)
next
  case False
  then show ?thesis
    by (cases "getBestTime st lid") (auto simp: getBestTime_def completeLevel_other split: option.splits)
qed

lemma bestCollectibles_step:
  "getBestCollectibles st lid \<le> getBestCollectibles (completeLevel l dat st) lid"
proof (cases "l = lid")
  case True
  then show ?thesis
    by (auto simp: getBestCollectibles_def completeLevel_record currentProgress_def
             defaultProgress_def split: option.splits)
next
  case False
  then show ?thesis
    by (simp add: getBestCollectibles_def completeLevel_other)
qed

lemma levelDeaths_step:
  "levelDeaths (completeLevel l dat st) lid =
     levelDeaths st lid + (if l = lid then deaths dat else 0)"
proof (cases "l = lid")
  case True
  then show ?thesis
    by (auto simp: levelDeaths_def getLevelProgress_def completeLevel_record currentProgress_def
                   defaultProgress_def split: option.splits)
next
  case False
  then show ?thesis
    by (simp add: levelDeaths_def getLevelProgress_def completeLevel_other)
qed

lemma levelDeaths_completeAll:
  "levelDeaths (completeAll cs st) lid = levelDeaths st lid + sum_list (map deaths (passedFor lid cs))"
  by (induction cs arbitrary: st) (auto simp: levelDeaths_step)

text \<open>
  Claim C1.  After \<open>completeLevel(id, d)\<close> the record stored for \<open>id\<close> is completed, its
  best time is the minimum of the previous best time (\<open>null\<close> read as plus infinity) and
  \<open>d.timeMs\<close>, its best collectible count the maximum of the previous one and \<open>d.picked\<close>,
  its death total the previous one plus \<open>d.deaths\<close>, where a level without a record
  counts as \<open>null\<close>, 0 and 0.  Over any history of completions, each further call leaves
  the best time of every level no larger and its best collectible count no smaller, and the
  death total of a level is what it was at the start plus the sum of all \<open>d.deaths\<close> passed
  for that level.
\<close>

theorem completeLevel_merge:
  "levelProgress (completeLevel lid dat st) lid =
     Some \<lparr>levelId = lid, completed = True,
           bestTimeMs =
             (case getBestTime st lid of
                None \<Rightarrow> Some (timeMs dat)
              | Some b \<Rightarrow> Some (min b (timeMs dat))),
           bestCollectibles = max (getBestCollectibles st lid) (picked dat),
           LevelProgress.totalDeaths = levelDeaths st lid + deaths dat\<rparr>
   \<and> timeLeq (getBestTime (completeAll (cs @ [(l, dat')]) st) lid) (getBestTime (completeAll cs st) lid)
   \<and> getBestCollectibles (completeAll cs st) lid
        \<le> getBestCollectibles (completeAll (cs @ [(l, dat')]) st) lid
   \<and> levelDeaths (completeAll cs st) lid
        = levelDeaths st lid + sum_list (map deaths (passedFor lid cs))
   \<and> levelDeaths (completeAll cs initialState) lid = sum_list (map deaths (passedFor lid cs))"
proof -
  have rec: "levelProgress (completeLevel lid dat st) lid =
     Some \<lparr>levelId = lid, completed = True,
           bestTimeMs =
             (case getBestTime st lid of
                None \<Rightarrow> Some (timeMs dat)
              | Some b \<Rightarrow> Some (min b (timeMs dat))),
           bestCollectibles = max (getBestCollectibles st lid) (picked dat),
           LevelProgress.totalDeaths = levelDeaths st lid + deaths dat\<rparr>"
    by (cases "levelProgress st lid")
       (simp_all add: completeLevel_record currentProgress_def defaultProgress_def
          getBestTime_def getBestCollectibles_def levelDeaths_def getLevelProgress_def)
  have init: "levelDeaths initialState lid = 0"
    by (simp add: levelDeaths_def getLevelProgress_def initialState_def)
  show ?thesis
    using rec init
    by (simp add: completeAll_snoc bestTime_step bestCollectibles_step levelDeaths_completeAll)
qed

lemma totals_step:
  "totalCoinsCollected (completeLevel lid dat st) = totalCoinsCollected st + picked dat
   \<and> GameStateData.totalDeaths (completeLevel lid dat st) = GameStateData.totalDeaths st + deaths dat"
  by (simp add: completeLevel_def Let_def)

lemma totals_completeAll:
  "totalCoinsCollected (completeAll cs st) = totalCoinsCollected st + sum_list (map (picked \<circ> snd) cs)
   \<and> GameStateData.totalDeaths (completeAll cs st)
       = GameStateData.totalDeaths st + sum_list (map (deaths \<circ> snd) cs)"
  by (induction cs arbitrary: st) (auto simp: totals_step)

text \<open>
  Claim C10.  Every \<open>completeLevel(id, d)\<close> adds \<open>d.picked\<close> to the store-wide
  \<open>totalCoinsCollected\<close> and \<open>d.deaths\<close> to the store-wide \<open>totalDeaths\<close>, whether or not
  the level was completed before: after any history of completions the two totals, as the
  getters return them, are the starting totals plus the sums over every call of the history,
  so two completions of the same level count twice.
\<close>

theorem completeLevel_totals:
  "getTotalCoinsCollected (completeLevel lid dat st) = getTotalCoinsCollected st + picked dat
   \<and> getTotalDeaths (completeLevel lid dat st) = getTotalDeaths st + deaths dat
   \<and> getTotalCoinsCollected (completeAll cs st)
       = getTotalCoinsCollected st + sum_list (map (picked \<circ> snd) cs)
   \<and> getTotalDeaths (completeAll cs st) = getTotalDeaths st + sum_list (map (deaths \<circ> snd) cs)
   \<and> getTotalCoinsCollected (completeLevel lid dat (completeLevel lid dat st))
       = getTotalCoinsCollected st + 2 * picked dat"
  using totals_completeAll [of cs st] totals_step [of lid dat st]
        totals_step [of lid dat "completeLevel lid dat st"]
  by (simp add: getTotalCoinsCollected_def getTotalDeaths_def)

section \<open>Simulation core (scenes/MainScene.ts)\<close>

subsection \<open>The parts of the level schema that the scene reads on every tick\<close>

datatype WindType = Constant | Pulsed

text \<open>
  Interface \<open>WindZone\<close>; its fields \<open>x\<close>, \<open>y\<close> and \<open>type\<close> are \<open>zoneX\<close>, \<open>zoneY\<close> and
  \<open>wtype\<close> here.  The optional \<open>pulseDuration\<close> is an option.
\<close>

record WindZone =
  zoneX :: number
  zoneY :: number
  width :: number
  height :: number
  forceX :: number
  forceY :: number
  wtype :: WindType
  pulseDuration :: "number option"

text \<open>Of \<open>LevelData\<close>, the two arrays that \<open>update\<close> and the wind part of \<open>mountLevel\<close> use.\<close>

record LevelData =
  windZones :: "WindZone list"
  hints :: "string list"

text \<open>Interface \<open>WindZoneData\<close>: a wind zone with the scene's mutable state for it.\<close>

record WindZoneData =
  zone :: WindZone
  active :: bool
  pulseTimer :: number

subsection \<open>What the scene reads from, and asks of, the engine\<close>

text \<open>
  The player's physics body belongs to the engine, which moves it between two calls of
  \<open>update\<close>.  A frame holds what one call of \<open>update\<close> reads: whether the three cursor keys
  are down, the body (absent when \<open>player.body\<close> is undefined) with \<open>touching.down\<close> and
  \<open>velocity.y\<close>, the player's position and \<open>game.loop.delta\<close>.
\<close>

record Body =
  touchingDown :: bool
  velocityY :: number

record Frame =
  leftDown :: bool
  rightDown :: bool
  upDown :: bool
  body :: "Body option"
  playerX :: number
  playerY :: number
  delta :: number

text \<open>
  The engine keeps \<open>isUp\<close> of a key as the negation of its \<open>isDown\<close>: a key is created and
  reset with \<open>isDown = false, isUp = true\<close>, and the two are flipped together on key down
  and key up.
\<close>

definition upIsUp :: "Frame \<Rightarrow> bool" where
  "upIsUp fr = (\<not> upDown fr)"

text \<open>The calls on the player sprite (and the tween manager) that \<open>update\<close> makes.\<close>

datatype PlayerCall =
    SetVelocityX number
  | SetVelocityY number
  | SetAccelerationX number
  | SetAccelerationY number
  | SetScale number number
  | TweenSquash

text \<open>
  The text object showing hints, with the two properties the scene sets: \<open>htext\<close> is its
  text, \<open>hvisible\<close> its visibility.
\<close>

record HintText =
  htext :: string
  hvisible :: bool

text \<open>The private fields of \<open>MainScene\<close> that \<open>update\<close> reads or writes.\<close>

record MainScene =
  coinCount :: nat
  canJump :: bool
  deaths :: nat
  startTime :: number
  currentLevelData :: "LevelData option"
  levelId :: "string option"
  windZones :: "WindZoneData list"
  hintText :: "HintText option"

definition PLAYER_SPEED :: number where
  "PLAYER_SPEED = 280"

definition JUMP_VELOCITY :: number where
  "JUMP_VELOCITY = - 450"

definition GRAVITY :: number where
  "GRAVITY = 800"

definition WIND_FORCE_MULTIPLIER :: number where
  "WIND_FORCE_MULTIPLIER = 1"

subsection \<open>Mounting a level\<close>

text \<open>
  The last loop of \<open>mountLevel\<close>.  The map \<open>windZones\<close> gets the keys \<open>wind_0\<close>, \<open>wind_1\<close>, ...
  in array order; they are pairwise different and a \<open>Map\<close> is traversed in insertion
  order, so the map is the list of its values.
\<close>

definition mountWindZones :: "LevelData \<Rightarrow> WindZoneData list" where
  "mountWindZones lv =
     map (\<lambda>z. \<lparr>zone = z, active = True, pulseTimer = 0\<rparr>) (LevelData.windZones lv)"

text \<open>
  The fields after a successful \<open>create\<close> for the selected level \<open>lid\<close>, whose loaded data
  are \<open>lv\<close>, at engine time \<open>now\<close>.  The other fields keep their initialisers.
\<close>

definition create :: "string \<Rightarrow> LevelData \<Rightarrow> number \<Rightarrow> MainScene" where
  "create lid lv now =
     \<lparr>coinCount = 0, canJump = True, deaths = 0, startTime = now,
      currentLevelData = Some lv, levelId = Some lid,
      windZones = mountWindZones lv,
      hintText = Some \<lparr>htext = '''', hvisible = False\<rparr>\<rparr>"

subsection \<open>Player movement\<close>

text \<open>\<open>this.player.body?.touching.down ?? false\<close>\<close>

definition onGround :: "Frame \<Rightarrow> bool" where
  "onGround fr = (case body fr of None \<Rightarrow> False | Some b \<Rightarrow> touchingDown b)"

text \<open>
  \<open>handlePlayerMovement\<close>.  \<open>setVelocityY\<close> writes \<open>body.velocity.y\<close> at once, so the
  landing test at the end reads the jump velocity on a tick that jumped.  That test reads
  the body only behind \<open>onGround\<close>, which is false without a body.
\<close>

definition handlePlayerMovement :: "Frame \<Rightarrow> MainScene \<Rightarrow> PlayerCall list \<times> MainScene" where
  "handlePlayerMovement fr sc =
     (let horizontal =
            (if leftDown fr then [SetVelocityX (- PLAYER_SPEED)]
             else if rightDown fr then [SetVelocityX PLAYER_SPEED]
             else [SetVelocityX 0]);
          jump = (upDown fr \<and> onGround fr \<and> canJump sc);
          jumping = (if jump then [SetVelocityY JUMP_VELOCITY, TweenSquash] else []);
          sc1 = (if jump then sc\<lparr>canJump := False\<rparr> else sc);
          sc2 = (if upIsUp fr \<and> onGround fr then sc1\<lparr>canJump := True\<rparr> else sc1);
          vy = (if jump then JUMP_VELOCITY
                else case body fr of None \<Rightarrow> 0 | Some b \<Rightarrow> velocityY b);
          landing = (if onGround fr \<and> vy \<ge> 0 then (if \<bar>vy\<bar> < 5 then [SetScale 1 1] else []) else [])
      in (horizontal @ jumping @ landing, sc2))"

subsection \<open>Wind zones\<close>

text \<open>The containment test of \<open>updateWindZones\<close>.\<close>

definition inZone :: "Frame \<Rightarrow> WindZone \<Rightarrow> bool" where
  "inZone fr z =
     (playerX fr \<ge> zoneX z - width z / 2 \<and>
      playerX fr \<le> zoneX z + width z / 2 \<and>
      playerY fr \<ge> zoneY z - height z / 2 \<and>
      playerY fr \<le> zoneY z + height z / 2)"

text \<open>
  The remainder operator \<open>%\<close> on numbers with a divisor other than zero: the quotient is
  rounded towards zero, so the result has the sign of the dividend.
\<close>

definition trunc :: "real \<Rightarrow> int" where
  "trunc r = (if 0 \<le> r then \<lfloor>r\<rfloor> else \<lceil>r\<rceil>)"

definition jsRem :: "number \<Rightarrow> number \<Rightarrow> number" where
  "jsRem a b = a - b * of_int (trunc (a / b))"

definition applyWind :: "WindZone \<Rightarrow> PlayerCall list" where
  "applyWind z =
     [SetAccelerationX (forceX z * WIND_FORCE_MULTIPLIER),
      SetAccelerationY (forceY z * WIND_FORCE_MULTIPLIER)]"

text \<open>
  The callback of \<open>windZones.forEach\<close>, for one zone.  \<open>zone.pulseDuration\<close> as a condition
  is true for a duration that is present and not zero.
\<close>

definition updateWindZone :: "Frame \<Rightarrow> WindZoneData \<Rightarrow> PlayerCall list \<times> WindZoneData" where
  "updateWindZone fr windData =
     (let z = zone windData in
      if \<not> inZone fr z then ([], windData)
      else if wtype z = Constant then (applyWind z, windData)
      else
        (case pulseDuration z of
           None \<Rightarrow> ([], windData)
         | Some p \<Rightarrow>
             if p = 0 then ([], windData)
             else
               (let windData' = windData\<lparr>pulseTimer := pulseTimer windData + delta fr\<rparr>;
                    cycle = jsRem (pulseTimer windData') (p * 2)
                in if cycle < p then (applyWind z, windData') else ([], windData'))))"

fun updateWindZones :: "Frame \<Rightarrow> WindZoneData list \<Rightarrow> PlayerCall list \<times> WindZoneData list" where
  "updateWindZones fr [] = ([], [])"
| "updateWindZones fr (w # ws) =
     (let (c, w') = updateWindZone fr w;
          (cs, ws') = updateWindZones fr ws
      in (c @ cs, w' # ws'))"

subsection \<open>Hints\<close>

text \<open>Reading an array at an integer index: \<open>undefined\<close> (here \<open>None\<close>) outside the array.\<close>

definition element :: "'a list \<Rightarrow> int \<Rightarrow> 'a option" where
  "element xs i = (if 0 \<le> i \<and> i < int (length xs) then Some (xs ! nat i) else None)"

definition hintIndex :: "nat \<Rightarrow> string list \<Rightarrow> int" where
  "hintIndex d hs = min (\<lfloor>real d / 3\<rfloor> - 1) (int (length hs) - 1)"

text \<open>
  \<open>checkHints\<close>.  The condition \<open>if (hint)\<close> is false for \<open>undefined\<close> and for the empty
  string.  \<open>setText\<close> and \<open>setVisible\<close> are the two property updates.
\<close>

definition checkHints :: "MainScene \<Rightarrow> MainScene" where
  "checkHints sc =
     (case currentLevelData sc of
        None \<Rightarrow> sc
      | Some lv \<Rightarrow>
          (case hintText sc of
             None \<Rightarrow> sc
           | Some ht \<Rightarrow>
               if MainScene.deaths sc \<ge> 3 \<and> length (hints lv) > 0 then
                 (case element (hints lv) (hintIndex (MainScene.deaths sc) (hints lv)) of
                    None \<Rightarrow> sc
                  | Some hint \<Rightarrow>
                      if hint = [] then sc
                      else sc\<lparr>hintText := Some (ht\<lparr>htext := hint, hvisible := True\<rparr>)\<rparr>)
               else sc\<lparr>hintText := Some (ht\<lparr>hvisible := False\<rparr>)\<rparr>))"

text \<open>The hint a player sees: the text of the hint object while it is visible.\<close>

definition shownHint :: "MainScene \<Rightarrow> string option" where
  "shownHint sc =
     (case hintText sc of
        None \<Rightarrow> None
      | Some ht \<Rightarrow> if hvisible ht then Some (htext ht) else None)"

subsection \<open>One tick, and a run of ticks\<close>

definition update :: "Frame \<Rightarrow> MainScene \<Rightarrow> PlayerCall list \<times> MainScene" where
  "update fr sc =
     (case currentLevelData sc of
        None \<Rightarrow> ([], sc)
      | Some _ \<Rightarrow>
          (let (c1, sc1) = handlePlayerMovement fr sc;
               (c2, wz) = updateWindZones fr (MainScene.windZones sc1);
               sc2 = sc1\<lparr>windZones := wz\<rparr>
           in (c1 @ c2, checkHints sc2)))"

text \<open>
  The engine calls \<open>update\<close> once per frame; a run is the sequence of frames, oldest first.
  The result has the calls of every tick in order and the scene after the last one.
\<close>

fun run :: "Frame list \<Rightarrow> MainScene \<Rightarrow> PlayerCall list \<times> MainScene" where
  "run [] sc = ([], sc)"
| "run (fr # frs) sc =
     (let (c, sc') = update fr sc;
          (cs, sc'') = run frs sc'
      in (c @ cs, sc''))"


section \<open>Properties of the wind zones\<close>

lemma jsRem_floor: "0 \<le> a \<Longrightarrow> 0 < b \<Longrightarrow> jsRem a b = a - b * of_int \<lfloor>a / b\<rfloor>"
  by (simp add: jsRem_def trunc_def)

lemma jsRem_range:
  assumes "0 \<le> a" "0 < b"
  shows "0 \<le> jsRem a b \<and> jsRem a b < b"
proof -
  have "b * of_int \<lfloor>a / b\<rfloor> \<le> b * (a / b)"
    using assms by (intro mult_left_mono) simp_all
  then have 1: "b * of_int \<lfloor>a / b\<rfloor> \<le> a" using assms by simp
  have "a / b < of_int \<lfloor>a / b\<rfloor> + 1" by linarith
  then have "b * (a / b) < b * (of_int \<lfloor>a / b\<rfloor> + 1)"
    using assms by (intro mult_strict_left_mono) simp_all
  then have 2: "a < b * (of_int \<lfloor>a / b\<rfloor> + 1)" using assms by simp
  from 1 2 show ?thesis using assms by (simp add: jsRem_floor algebra_simps)
qed





text \<open>A frame with the player at (10, 20), no key down, 16 ms after the previous one.\<close>

definition exampleFrame :: Frame where
  "exampleFrame =
     \<lparr>leftDown = False, rightDown = False, upDown = False, body = None,
      playerX = 10, playerY = 20, delta = 16\<rparr>"

text \<open>A pulsed zone around the origin, 100 wide and high, with pulse duration 500 ms.\<close>

definition exampleZone :: WindZone where
  "exampleZone =
     \<lparr>zoneX = 0, zoneY = 0, width = 100, height = 100, forceX = 30, forceY = 0,
      wtype = Pulsed, pulseDuration = Some 500\<rparr>"

section \<open>Properties of a run of ticks: pulse timers\<close>

text \<open>
  The condition under which the callback of \<open>updateWindZones\<close> reaches
  \<open>windData.pulseTimer += delta\<close>.
\<close>

definition accumulating :: "Frame \<Rightarrow> WindZone \<Rightarrow> bool" where
  "accumulating fr z =
     (inZone fr z \<and> wtype z = Pulsed \<and>
      (case pulseDuration z of None \<Rightarrow> False | Some p \<Rightarrow> p \<noteq> 0))"

text \<open>The deltas of the frames of a run on which a zone accumulates, summed.\<close>

fun zoneTime :: "Frame list \<Rightarrow> WindZone \<Rightarrow> number" where
  "zoneTime [] z = 0"
| "zoneTime (fr # frs) z = (if accumulating fr z then delta fr else 0) + zoneTime frs z"

lemma updateWindZone_zone: "zone (snd (updateWindZone fr wd)) = zone wd"
  by (simp add: updateWindZone_def Let_def split: option.splits)

lemma updateWindZone_timer:
  "pulseTimer (snd (updateWindZone fr wd)) =
     pulseTimer wd + (if accumulating fr (zone wd) then delta fr else 0)"
  by (cases "wtype (zone wd)")
     (simp_all add: updateWindZone_def accumulating_def Let_def split: option.splits)

lemma updateWindZones_snd:
  "snd (updateWindZones fr wds) = map (\<lambda>wd. snd (updateWindZone fr wd)) wds"
  by (induction wds) (simp_all add: split_beta Let_def)

lemma handlePlayerMovement_fields:
  "currentLevelData (snd (handlePlayerMovement fr sc)) = currentLevelData sc
   \<and> MainScene.windZones (snd (handlePlayerMovement fr sc)) = MainScene.windZones sc
   \<and> hintText (snd (handlePlayerMovement fr sc)) = hintText sc
   \<and> MainScene.deaths (snd (handlePlayerMovement fr sc)) = MainScene.deaths sc"
  by (simp add: handlePlayerMovement_def Let_def)

lemma checkHints_fields:
  "currentLevelData (checkHints sc) = currentLevelData sc
   \<and> MainScene.windZones (checkHints sc) = MainScene.windZones sc
   \<and> canJump (checkHints sc) = canJump sc
   \<and> MainScene.deaths (checkHints sc) = MainScene.deaths sc"
  by (simp add: checkHints_def split: option.splits)

lemma update_level: "currentLevelData (snd (update fr sc)) = currentLevelData sc"
  by (cases "currentLevelData sc")
     (simp_all add: update_def split_beta Let_def checkHints_fields handlePlayerMovement_fields)

lemma update_windZones:
  "currentLevelData sc \<noteq> None \<Longrightarrow>
   MainScene.windZones (snd (update fr sc)) =
     map (\<lambda>wd. snd (updateWindZone fr wd)) (MainScene.windZones sc)"
  by (cases "currentLevelData sc")
     (simp_all add: update_def split_beta Let_def checkHints_fields handlePlayerMovement_fields
        updateWindZones_snd)

lemma run_level: "currentLevelData (snd (run frs sc)) = currentLevelData sc"
  by (induction frs arbitrary: sc) (simp_all add: split_beta Let_def update_level)

lemma run_zones:
  "currentLevelData sc \<noteq> None \<Longrightarrow>
   map zone (MainScene.windZones (snd (run frs sc))) = map zone (MainScene.windZones sc)"
proof (induction frs arbitrary: sc)
  case Nil
  then show ?case by simp
next
  case (Cons fr frs)
  have "currentLevelData (snd (update fr sc)) \<noteq> None"
    using Cons.prems by (simp add: update_level)
  from Cons.IH [OF this] show ?case
    using Cons.prems
    by (simp add: split_beta Let_def update_windZones updateWindZone_zone comp_def)
qed

lemma run_timers:
  "currentLevelData sc \<noteq> None \<Longrightarrow>
   map pulseTimer (MainScene.windZones (snd (run frs sc))) =
     map (\<lambda>wd. pulseTimer wd + zoneTime frs (zone wd)) (MainScene.windZones sc)"
proof (induction frs arbitrary: sc)
  case Nil
  then show ?case by simp
next
  case (Cons fr frs)
  have "currentLevelData (snd (update fr sc)) \<noteq> None"
    using Cons.prems by (simp add: update_level)
  from Cons.IH [OF this] show ?case
    using Cons.prems
    by (simp add: split_beta Let_def update_windZones updateWindZone_zone updateWindZone_timer
          comp_def algebra_simps)
qed

lemma zoneTime_nonneg: "(\<forall>fr \<in> set frs. 0 \<le> delta fr) \<Longrightarrow> 0 \<le> zoneTime frs z"
  by (induction frs) auto

text \<open>A level with the example zone and two hints, the second one the empty string.\<close>

definition exampleLevel :: LevelData where
  "exampleLevel = \<lparr>LevelData.windZones = [exampleZone], hints = [''h0'', '''']\<rparr>"

lemma create_timers:
  "map pulseTimer (MainScene.windZones (snd (run frs (create lid lv now)))) =
     map (zoneTime frs) (LevelData.windZones lv)"
proof -
  have "currentLevelData (create lid lv now) \<noteq> None" by (simp add: create_def)
  from run_timers [OF this] show ?thesis
    by (simp add: create_def mountWindZones_def comp_def)
qed

text \<open>
  Claim C9, as amended.  The stored pulse timer is never wrapped.  Over any run of ticks
  with a level loaded and no negative delta, every zone keeps its definition and its timer
  is the timer at the start plus the deltas of the ticks on which it accumulated (player
  inside, zone pulsed with a duration other than zero), a sum that is not negative; in a
  session it starts at 0.  What stays below \<open>2 * p\<close> is the phase \<open>timer % (2 * p)\<close>
  computed from it on each tick, for a positive \<open>p\<close> and a timer that is not negative.
\<close>

theorem pulseTimer_accumulates:
  assumes "currentLevelData sc \<noteq> None"
    and "\<forall>fr \<in> set frs. 0 \<le> delta fr"
  shows "map pulseTimer (MainScene.windZones (snd (run frs sc))) =
           map (\<lambda>wd. pulseTimer wd + zoneTime frs (zone wd)) (MainScene.windZones sc)
       \<and> map zone (MainScene.windZones (snd (run frs sc))) = map zone (MainScene.windZones sc)
       \<and> 0 \<le> zoneTime frs z
       \<and> map pulseTimer (MainScene.windZones (snd (run frs (create lid lv now)))) =
           map (zoneTime frs) (LevelData.windZones lv)
       \<and> (0 \<le> t \<and> 0 < p \<longrightarrow> 0 \<le> jsRem t (p * 2) \<and> jsRem t (p * 2) < p * 2)"
  using run_timers [OF assms(1)] run_zones [OF assms(1)] zoneTime_nonneg [OF assms(2)]
        create_timers [of frs lid lv now] jsRem_range [of t "p * 2"]
  by simp

text \<open>Two frames of 16 ms inside the example zone leave its timer at 32.\<close>

theorem pulseTimer_accumulates_witness:
  "currentLevelData (create ''wind_01'' exampleLevel 0) \<noteq> None
   \<and> list_all (\<lambda>fr. 0 \<le> delta fr) [exampleFrame, exampleFrame]
   \<and> map pulseTimer (MainScene.windZones (snd (run [exampleFrame, exampleFrame] (create ''wind_01'' exampleLevel 0))))
       = [32]
   \<and> jsRem 1200 (500 * 2) = 200"
  using pulseTimer_accumulates [of "create ''wind_01'' exampleLevel 0" "[exampleFrame, exampleFrame]"
          exampleZone "''wind_01''" exampleLevel 0 1200 500]
  by (simp add: create_def exampleLevel_def exampleFrame_def exampleZone_def mountWindZones_def
        accumulating_def inZone_def jsRem_def trunc_def)

text \<open>
  Claim C9 as stated fails: three ticks of 400 ms inside a zone with pulse duration 500
  leave the stored timer at 1200, which is not below \<open>2 * 500\<close>.
\<close>

theorem pulseTimer_wrap_counterexample:
  "pulseDuration (zone (MainScene.windZones
       (snd (run [exampleFrame\<lparr>delta := 400\<rparr>, exampleFrame\<lparr>delta := 400\<rparr>, exampleFrame\<lparr>delta := 400\<rparr>]
              (create ''wind_01'' exampleLevel 0))) ! 0)) = Some 500
   \<and> pulseTimer (MainScene.windZones
       (snd (run [exampleFrame\<lparr>delta := 400\<rparr>, exampleFrame\<lparr>delta := 400\<rparr>, exampleFrame\<lparr>delta := 400\<rparr>]
              (create ''wind_01'' exampleLevel 0))) ! 0) = 1200
   \<and> \<not> pulseTimer (MainScene.windZones
       (snd (run [exampleFrame\<lparr>delta := 400\<rparr>, exampleFrame\<lparr>delta := 400\<rparr>, exampleFrame\<lparr>delta := 400\<rparr>]
              (create ''wind_01'' exampleLevel 0))) ! 0) < 2 * 500"
  by (simp add: create_def exampleLevel_def exampleFrame_def exampleZone_def mountWindZones_def
        update_def handlePlayerMovement_def updateWindZone_def checkHints_def onGround_def upIsUp_def
        inZone_def jsRem_def trunc_def Let_def applyWind_def)

section \<open>Properties of a tick: the force of a pulsed zone\<close>








section \<open>Properties of a run of ticks: jumping\<close>















section \<open>Properties of the hint policy\<close>

lemma hintIndex_div: "hintIndex d hs = min (int (d div 3) - 1) (int (length hs) - 1)"
proof -
  have "\<lfloor>real d / 3\<rfloor> = int (d div 3)"
    using floor_divide_of_nat_eq [of d 3, where ?'a = real] by simp
  then show ?thesis by (simp add: hintIndex_def)
qed

lemma hintIndex_bounds:
  assumes "3 \<le> d" "hs \<noteq> []"
  shows "0 \<le> hintIndex d hs \<and> hintIndex d hs < int (length hs)"
proof -
  have "1 \<le> d div 3" using assms(1) by presburger
  moreover have "1 \<le> length hs" using assms(2) by (cases hs) simp_all
  ultimately show ?thesis unfolding hintIndex_div by linarith
qed

lemma checkHints_hidden:
  assumes "currentLevelData sc = Some lv" "hintText sc = Some ht"
    and "MainScene.deaths sc < 3 \<or> hints lv = []"
  shows "shownHint (checkHints sc) = None"
  using assms by (auto simp: checkHints_def shownHint_def)

lemma checkHints_selected:
  assumes "currentLevelData sc = Some lv" "hintText sc = Some ht"
    and "3 \<le> MainScene.deaths sc" "hints lv \<noteq> []"
  shows "checkHints sc =
           (if hints lv ! nat (hintIndex (MainScene.deaths sc) (hints lv)) = [] then sc
            else sc\<lparr>hintText := Some (ht\<lparr>htext := hints lv ! nat (hintIndex (MainScene.deaths sc) (hints lv)),
                                           hvisible := True\<rparr>)\<rparr>)"
  using assms hintIndex_bounds [OF assms(3,4)]
  by (simp add: checkHints_def element_def)

text \<open>
  Claim C4, as amended.  With a level loaded and the hint text created, let \<open>d\<close> be the
  death count and \<open>h\<close> the hints.  If \<open>d < 3\<close> or \<open>h\<close> is empty no hint is shown.  If
  \<open>d \<ge> 3\<close> and \<open>h\<close> is not empty, the selected index is
  \<open>min (d div 3 - 1) (length h - 1)\<close>, it lies within the array, and the hint shown is
  the selected entry if that entry is not the empty string; if it is the empty string the
  tick leaves the scene, and so the hint display, as it was.  For \<open>h = [h0, h1]\<close> that is
  no hint for \<open>d\<close> in 0 to 2, \<open>h0\<close> for \<open>d\<close> in 3 to 5 and \<open>h1\<close> from 6 on.  \<open>checkHints\<close>
  has no failing branch.
\<close>

theorem hint_escalation:
  assumes "currentLevelData sc = Some lv"
    and "hintText sc = Some ht"
  shows "(MainScene.deaths sc < 3 \<or> hints lv = [] \<longrightarrow> shownHint (checkHints sc) = None)
       \<and> (3 \<le> MainScene.deaths sc \<and> hints lv \<noteq> [] \<longrightarrow>
            hintIndex (MainScene.deaths sc) (hints lv)
              = min (int (MainScene.deaths sc div 3) - 1) (int (length (hints lv)) - 1)
          \<and> 0 \<le> hintIndex (MainScene.deaths sc) (hints lv)
          \<and> hintIndex (MainScene.deaths sc) (hints lv) < int (length (hints lv))
          \<and> (hints lv ! nat (hintIndex (MainScene.deaths sc) (hints lv)) \<noteq> [] \<longrightarrow>
               shownHint (checkHints sc)
                 = Some (hints lv ! nat (hintIndex (MainScene.deaths sc) (hints lv))))
          \<and> (hints lv ! nat (hintIndex (MainScene.deaths sc) (hints lv)) = [] \<longrightarrow>
               checkHints sc = sc))
       \<and> (hints lv = [''h0'', ''h1''] \<longrightarrow>
            shownHint (checkHints sc)
              = (if MainScene.deaths sc < 3 then None
                 else if MainScene.deaths sc < 6 then Some ''h0'' else Some ''h1''))"
proof -
  have a: "MainScene.deaths sc < 3 \<or> hints lv = [] \<longrightarrow> shownHint (checkHints sc) = None"
    using checkHints_hidden [OF assms] by blast
  have b: "3 \<le> MainScene.deaths sc \<and> hints lv \<noteq> [] \<longrightarrow>
            hintIndex (MainScene.deaths sc) (hints lv)
              = min (int (MainScene.deaths sc div 3) - 1) (int (length (hints lv)) - 1)
          \<and> 0 \<le> hintIndex (MainScene.deaths sc) (hints lv)
          \<and> hintIndex (MainScene.deaths sc) (hints lv) < int (length (hints lv))
          \<and> (hints lv ! nat (hintIndex (MainScene.deaths sc) (hints lv)) \<noteq> [] \<longrightarrow>
               shownHint (checkHints sc)
                 = Some (hints lv ! nat (hintIndex (MainScene.deaths sc) (hints lv))))
          \<and> (hints lv ! nat (hintIndex (MainScene.deaths sc) (hints lv)) = [] \<longrightarrow>
               checkHints sc = sc)"
  proof
    assume h: "3 \<le> MainScene.deaths sc \<and> hints lv \<noteq> []"
    then have sel: "checkHints sc =
           (if hints lv ! nat (hintIndex (MainScene.deaths sc) (hints lv)) = [] then sc
            else sc\<lparr>hintText := Some (ht\<lparr>htext := hints lv ! nat (hintIndex (MainScene.deaths sc) (hints lv)),
                                           hvisible := True\<rparr>)\<rparr>)"
      using checkHints_selected [OF assms] by blast
    from h have bd: "0 \<le> hintIndex (MainScene.deaths sc) (hints lv)
        \<and> hintIndex (MainScene.deaths sc) (hints lv) < int (length (hints lv))"
      using hintIndex_bounds by blast
    show "hintIndex (MainScene.deaths sc) (hints lv)
              = min (int (MainScene.deaths sc div 3) - 1) (int (length (hints lv)) - 1)
          \<and> 0 \<le> hintIndex (MainScene.deaths sc) (hints lv)
          \<and> hintIndex (MainScene.deaths sc) (hints lv) < int (length (hints lv))
          \<and> (hints lv ! nat (hintIndex (MainScene.deaths sc) (hints lv)) \<noteq> [] \<longrightarrow>
               shownHint (checkHints sc)
                 = Some (hints lv ! nat (hintIndex (MainScene.deaths sc) (hints lv))))
          \<and> (hints lv ! nat (hintIndex (MainScene.deaths sc) (hints lv)) = [] \<longrightarrow>
               checkHints sc = sc)"
      using bd by (simp add: sel shownHint_def hintIndex_div [symmetric])
  qed
  have c: "hints lv = [''h0'', ''h1''] \<longrightarrow>
            shownHint (checkHints sc)
              = (if MainScene.deaths sc < 3 then None
                 else if MainScene.deaths sc < 6 then Some ''h0'' else Some ''h1'')"
  proof
    assume hs: "hints lv = [''h0'', ''h1'']"
    show "shownHint (checkHints sc)
              = (if MainScene.deaths sc < 3 then None
                 else if MainScene.deaths sc < 6 then Some ''h0'' else Some ''h1'')"
    proof (cases "MainScene.deaths sc < 3")
      case True
      then show ?thesis using a by simp
    next
      case False
      then have d3: "3 \<le> MainScene.deaths sc" by simp
      have ne: "hints lv \<noteq> []" using hs by simp
      have sel: "checkHints sc =
           (if hints lv ! nat (hintIndex (MainScene.deaths sc) (hints lv)) = [] then sc
            else sc\<lparr>hintText := Some (ht\<lparr>htext := hints lv ! nat (hintIndex (MainScene.deaths sc) (hints lv)),
                                           hvisible := True\<rparr>)\<rparr>)"
        using checkHints_selected [OF assms d3 ne] .
      show ?thesis
      proof (cases "MainScene.deaths sc < 6")
        case True
        with d3 have "MainScene.deaths sc div 3 = 1" by presburger
        then have "hintIndex (MainScene.deaths sc) (hints lv) = 0"
          by (simp add: hintIndex_div hs)
        then show ?thesis using True d3 hs by (simp add: sel shownHint_def)
      next
        case False
        then have "2 \<le> MainScene.deaths sc div 3" by presburger
        then have "hintIndex (MainScene.deaths sc) (hints lv) = 1"
          by (simp add: hintIndex_div hs)
        then show ?thesis using False d3 hs by (simp add: sel shownHint_def)
      qed
    qed
  qed
  show ?thesis by (intro conjI) (rule a, rule b, rule c)
qed

text \<open>Four deaths in the example level: index 0, and \<open>h0\<close> is shown.\<close>

theorem hint_escalation_witness:
  "currentLevelData ((create ''wind_01'' exampleLevel 0)\<lparr>deaths := 4\<rparr>) = Some exampleLevel
   \<and> hintText ((create ''wind_01'' exampleLevel 0)\<lparr>deaths := 4\<rparr>)
       = Some \<lparr>htext = '''', hvisible = False\<rparr>
   \<and> 3 \<le> MainScene.deaths ((create ''wind_01'' exampleLevel 0)\<lparr>deaths := 4\<rparr>)
   \<and> hints exampleLevel \<noteq> []
   \<and> hintIndex 4 (hints exampleLevel) = 0
   \<and> shownHint (checkHints ((create ''wind_01'' exampleLevel 0)\<lparr>deaths := 4\<rparr>)) = Some ''h0''"
proof -
  let ?sc = "(create ''wind_01'' exampleLevel 0)\<lparr>deaths := 4\<rparr>"
  have l: "currentLevelData ?sc = Some exampleLevel"
    by (simp add: create_def)
  have t: "hintText ?sc = Some \<lparr>htext = '''', hvisible = False\<rparr>"
    by (simp add: create_def)
  have d: "MainScene.deaths ?sc = 4"
    by simp
  have hs: "hints exampleLevel = [''h0'', '''']"
    by (simp add: exampleLevel_def)
  note H = hint_escalation [OF l t, THEN conjunct2, THEN conjunct1]
  have i: "hintIndex 4 (hints exampleLevel) = 0"
    using H by (simp add: d hs)
  have s: "shownHint (checkHints ?sc) = Some ''h0''"
    using H i by (simp add: d hs)
  from l t d hs i s show ?thesis by simp
qed

text \<open>
  Claim C4 as stated fails where the selected hint is the empty string: in the example
  level, whose hints are \<open>h0\<close> and the empty string, the tick at three deaths shows \<open>h0\<close>,
  and the tick at six deaths selects index 1 and still shows \<open>h0\<close>.
\<close>

theorem hint_shown_counterexample:
  "3 \<le> MainScene.deaths ((checkHints ((create ''wind_01'' exampleLevel 0)\<lparr>deaths := 3\<rparr>))\<lparr>deaths := 6\<rparr>)
   \<and> hints exampleLevel \<noteq> []
   \<and> currentLevelData ((checkHints ((create ''wind_01'' exampleLevel 0)\<lparr>deaths := 3\<rparr>))\<lparr>deaths := 6\<rparr>)
       = Some exampleLevel
   \<and> hints exampleLevel ! nat (hintIndex 6 (hints exampleLevel)) = ''''
   \<and> shownHint (checkHints ((checkHints ((create ''wind_01'' exampleLevel 0)\<lparr>deaths := 3\<rparr>))\<lparr>deaths := 6\<rparr>))
       = Some ''h0''
   \<and> shownHint (checkHints ((checkHints ((create ''wind_01'' exampleLevel 0)\<lparr>deaths := 3\<rparr>))\<lparr>deaths := 6\<rparr>))
       \<noteq> Some (hints exampleLevel ! nat (hintIndex 6 (hints exampleLevel)))"
  by (simp add: create_def exampleLevel_def checkHints_def element_def hintIndex_def shownHint_def)

section \<open>Level store (levels/schema.ts, levels/loadLevel.ts)\<close>

subsection \<open>Level documents\<close>

text \<open>
  The value of a parsed JSON document, which \<open>validateLevelData\<close> receives as \<open>unknown\<close>.
  An object is the list of its properties.
\<close>

datatype json =
    JNull
  | JBool bool
  | JNum number
  | JStr string
  | JArr "json list"
  | JObj "(string \<times> json) list"

text \<open>
  Reading a property: \<open>undefined\<close> (here \<open>None\<close>) when the object has none of that name.
  An array has none of the property names that the validation reads.
\<close>

fun field :: "json \<Rightarrow> string \<Rightarrow> json option" where
  "field (JObj kvs) k = map_of kvs k"
| "field _ k = None"

text \<open>
  The guard \<open>!obj || typeof obj !== 'object'\<close> lets objects and arrays through: \<open>null\<close> has
  type \<open>object\<close> but is falsy.
\<close>

fun isObject :: "json option \<Rightarrow> bool" where
  "isObject (Some (JObj _)) = True"
| "isObject (Some (JArr _)) = True"
| "isObject _ = False"

fun isString :: "json option \<Rightarrow> bool" where
  "isString (Some (JStr _)) = True"
| "isString _ = False"

fun isNumber :: "json option \<Rightarrow> bool" where
  "isNumber (Some (JNum _)) = True"
| "isNumber _ = False"

fun isArray :: "json option \<Rightarrow> bool" where
  "isArray (Some (JArr _)) = True"
| "isArray _ = False"

text \<open>The elements of a value known to be an array.\<close>

fun elements :: "json option \<Rightarrow> json list" where
  "elements (Some (JArr xs)) = xs"
| "elements _ = []"

text \<open>The predicates of the schema, in the order of the source.\<close>

definition isVector2 :: "json option \<Rightarrow> bool" where
  "isVector2 obj =
     (case obj of
        None \<Rightarrow> False
      | Some v \<Rightarrow> isObject obj \<and> isNumber (field v ''x'') \<and> isNumber (field v ''y''))"

definition isGoal :: "json option \<Rightarrow> bool" where
  "isGoal obj =
     (case obj of
        None \<Rightarrow> False
      | Some g \<Rightarrow>
          isObject obj \<and> isNumber (field g ''x'') \<and> isNumber (field g ''y'') \<and>
          isNumber (field g ''radius''))"

definition isPlatform :: "json \<Rightarrow> bool" where
  "isPlatform p =
     (isObject (Some p) \<and> isNumber (field p ''x'') \<and> isNumber (field p ''y'') \<and>
      isNumber (field p ''width'') \<and> isNumber (field p ''height''))"

definition isHazard :: "json \<Rightarrow> bool" where
  "isHazard h =
     (isObject (Some h) \<and>
      (field h ''type'' = Some (JStr ''spikes'') \<or> field h ''type'' = Some (JStr ''lava'') \<or>
       field h ''type'' = Some (JStr ''void'')) \<and>
      isNumber (field h ''x'') \<and> isNumber (field h ''y'') \<and>
      isNumber (field h ''width'') \<and> isNumber (field h ''height''))"

definition isCollectible :: "json \<Rightarrow> bool" where
  "isCollectible c =
     (isObject (Some c) \<and> isNumber (field c ''x'') \<and> isNumber (field c ''y'') \<and>
      isString (field c ''id''))"

definition isWindZone :: "json \<Rightarrow> bool" where
  "isWindZone w =
     (if \<not> isObject (Some w) then False
      else
        (let isValid =
               (isNumber (field w ''x'') \<and> isNumber (field w ''y'') \<and>
                isNumber (field w ''width'') \<and> isNumber (field w ''height'') \<and>
                isNumber (field w ''forceX'') \<and> isNumber (field w ''forceY'') \<and>
                (field w ''type'' = Some (JStr ''constant'') \<or>
                 field w ''type'' = Some (JStr ''pulsed'')))
         in if \<not> isValid then False
            else if field w ''type'' = Some (JStr ''pulsed'') \<and> \<not> isNumber (field w ''pulseDuration'')
              then False
            else True))"

definition isMovingPlatform :: "json \<Rightarrow> bool" where
  "isMovingPlatform m =
     (isObject (Some m) \<and> isNumber (field m ''x'') \<and> isNumber (field m ''y'') \<and>
      isNumber (field m ''width'') \<and> isNumber (field m ''height'') \<and>
      isNumber (field m ''targetX'') \<and> isNumber (field m ''targetY'') \<and>
      isNumber (field m ''speed''))"

definition isCheckpoint :: "json \<Rightarrow> bool" where
  "isCheckpoint c =
     (isObject (Some c) \<and> isNumber (field c ''x'') \<and> isNumber (field c ''y'') \<and>
      isNumber (field c ''radius''))"

definition validateLevelData :: "json \<Rightarrow> bool" where
  "validateLevelData level =
     (if \<not> isObject (Some level) then False
      else if \<not> isString (field level ''id'') \<or>
              \<not> isString (field level ''name'') \<or>
              \<not> isString (field level ''description'') \<or>
              \<not> isNumber (field level ''difficulty'') \<or>
              \<not> isNumber (field level ''timeGoalSeconds'')
        then False
      else if \<not> isVector2 (field level ''playerSpawn'') \<or>
              \<not> isGoal (field level ''goal'') \<or>
              \<not> isArray (field level ''platforms'') \<or>
              \<not> isArray (field level ''hazards'') \<or>
              \<not> isArray (field level ''collectibles'') \<or>
              \<not> isArray (field level ''windZones'') \<or>
              \<not> isArray (field level ''movingPlatforms'') \<or>
              \<not> isArray (field level ''checkpoints'') \<or>
              \<not> isArray (field level ''hints'')
        then False
      else if \<not> list_all isPlatform (elements (field level ''platforms'')) \<or>
              \<not> list_all isHazard (elements (field level ''hazards'')) \<or>
              \<not> list_all isCollectible (elements (field level ''collectibles'')) \<or>
              \<not> list_all isWindZone (elements (field level ''windZones'')) \<or>
              \<not> list_all isMovingPlatform (elements (field level ''movingPlatforms'')) \<or>
              \<not> list_all isCheckpoint (elements (field level ''checkpoints'')) \<or>
              \<not> list_all (\<lambda>h. isString (Some h)) (elements (field level ''hints''))
        then False
      else True)"

text \<open>The \<open>id\<close> of every entry of \<open>collectibles\<close>, in array order (\<open>None\<close> where it is no string).\<close>

fun stringOf :: "json option \<Rightarrow> string option" where
  "stringOf (Some (JStr s)) = Some s"
| "stringOf _ = None"

definition collectibleIds :: "json \<Rightarrow> string option list" where
  "collectibleIds level =
     map (\<lambda>c. stringOf (field c ''id'')) (elements (field level ''collectibles''))"

subsection \<open>Loading and caching\<close>

text \<open>
  A level object as the loader hands it out: \<open>address\<close> is the identity of the object
  (two objects are the same reference when their addresses agree), \<open>contents\<close> its value.
\<close>

record LevelObject =
  address :: nat
  contents :: json

text \<open>
  What is thrown: an \<open>Error\<close> with its message, or the rejection of the dynamic import
  of a level file.  What the loader does besides changing the cache is kept in a log: the
  dynamic imports, the validations and the \<open>console.error\<close> calls.
\<close>

datatype error = Error string | ImportError string

datatype effect = Import string | Validate string | ConsoleError string

record Loader =
  levelCache :: "string \<rightharpoonup> LevelObject"
  effects :: "effect list"

text \<open>
  The level files: \<open>modules levelId\<close> is the default export of
  \<open>./wind/<levelId>.json\<close>, \<open>None\<close> when the import is rejected.

  The body of the \<open>try\<close> block of \<open>loadLevel\<close>; an import that fails throws before the
  validation.  A load runs to its end before the next one starts.
\<close>

definition tryLoad :: "(string \<rightharpoonup> LevelObject) \<Rightarrow> string \<Rightarrow> Loader \<Rightarrow> (error + LevelObject) \<times> Loader" where
  "tryLoad modules lid st =
     (let st1 = st\<lparr>effects := effects st @ [Import lid]\<rparr> in
      case modules lid of
        None \<Rightarrow> (Inl (ImportError lid), st1)
      | Some levelData \<Rightarrow>
          (let st2 = st1\<lparr>effects := effects st1 @ [Validate lid]\<rparr> in
           if \<not> validateLevelData (contents levelData)
             then (Inl (Error (''Invalid level data for '' @ lid)), st2)
           else (Inr levelData, st2\<lparr>levelCache := (levelCache st2)(lid \<mapsto> levelData)\<rparr>)))"

definition loadLevel :: "(string \<rightharpoonup> LevelObject) \<Rightarrow> string \<Rightarrow> Loader \<Rightarrow> (error + LevelObject) \<times> Loader" where
  "loadLevel modules lid st =
     (case levelCache st lid of
        Some cached \<Rightarrow> (Inr cached, st)
      | None \<Rightarrow>
          (case tryLoad modules lid st of
             (Inr levelData, st') \<Rightarrow> (Inr levelData, st')
           | (Inl _, st') \<Rightarrow>
               (Inl (Error (''Could not load level '' @ lid)),
                st'\<lparr>effects := effects st' @ [ConsoleError (''Failed to load level '' @ lid @ '':'')]\<rparr>)))"

definition clearLevelCache :: "Loader \<Rightarrow> Loader" where
  "clearLevelCache st = st\<lparr>levelCache := Map.empty\<rparr>"

definition getCachedLevel :: "Loader \<Rightarrow> string \<Rightarrow> LevelObject option" where
  "getCachedLevel st lid = levelCache st lid"

text \<open>The module's initial state: an empty cache.\<close>

definition initialLoader :: Loader where
  "initialLoader = \<lparr>levelCache = Map.empty, effects = []\<rparr>"

text \<open>A sequence of loads, one after the other, whatever their results.\<close>

fun loadAll :: "(string \<rightharpoonup> LevelObject) \<Rightarrow> string list \<Rightarrow> Loader \<Rightarrow> Loader" where
  "loadAll modules [] st = st"
| "loadAll modules (lid # lids) st = loadAll modules lids (snd (loadLevel modules lid st))"

section \<open>Properties of the level store\<close>

lemma loadLevel_success_cached:
  "loadLevel modules lid st = (Inr v, st') \<Longrightarrow> levelCache st' lid = Some v"
  by (auto simp: loadLevel_def tryLoad_def Let_def split: option.splits if_splits)

lemma loadLevel_hit:
  "levelCache st lid = Some v \<Longrightarrow> loadLevel modules lid st = (Inr v, st)"
  by (simp add: loadLevel_def)

lemma loadLevel_keeps:
  "levelCache st k = Some v \<Longrightarrow> levelCache (snd (loadLevel modules lid st)) k = Some v"
  by (auto simp: loadLevel_def tryLoad_def Let_def split: option.splits if_splits)

lemma loadAll_keeps:
  "levelCache st k = Some v \<Longrightarrow> levelCache (loadAll modules lids st) k = Some v"
  by (induction lids arbitrary: st) (simp_all add: loadLevel_keeps)

text \<open>
  Claim C5.  Once \<open>loadLevel(id)\<close> has succeeded with a level object, every later
  \<open>loadLevel(id)\<close>, directly or after any further loads, returns that same object (the same
  address) and leaves the loader as it is: its log gets no import and no validation.
  This holds whatever the level files have become meanwhile.
\<close>

theorem loadLevel_cached:
  assumes "loadLevel modules lid st = (Inr v, st')"
  shows "loadLevel modules' lid st' = (Inr v, st')
       \<and> loadLevel modules' lid (loadAll modules'' lids st') = (Inr v, loadAll modules'' lids st')"
proof -
  have c: "levelCache st' lid = Some v"
    using assms by (rule loadLevel_success_cached)
  then have "levelCache (loadAll modules'' lids st') lid = Some v"
    by (rule loadAll_keeps)
  with c show ?thesis by (simp add: loadLevel_hit)
qed

lemma loadLevel_fails:
  assumes "fst (loadLevel modules lid st) = Inl e"
  shows "e = Error (''Could not load level '' @ lid)
       \<and> levelCache (snd (loadLevel modules lid st)) = levelCache st
       \<and> levelCache st lid = None
       \<and> (case modules lid of None \<Rightarrow> True | Some lv \<Rightarrow> \<not> validateLevelData (contents lv))"
  using assms
  by (auto simp: loadLevel_def tryLoad_def Let_def split: option.splits if_splits)

lemma loadLevel_must_fail:
  assumes "levelCache st lid = None"
    and "case modules lid of None \<Rightarrow> True | Some lv \<Rightarrow> \<not> validateLevelData (contents lv)"
  shows "fst (loadLevel modules lid st) = Inl (Error (''Could not load level '' @ lid))"
  using assms
  by (auto simp: loadLevel_def tryLoad_def Let_def split: option.splits if_splits)

lemma loadLevel_whole:
  assumes "fst (loadLevel modules lid st) = Inr v"
  shows "levelCache st lid = Some v \<or> (modules lid = Some v \<and> validateLevelData (contents v))"
  using assms
  by (auto simp: loadLevel_def tryLoad_def Let_def split: option.splits if_splits)

text \<open>
  Claim C6.  A \<open>loadLevel(id)\<close> that fails throws \<open>Error\<close> with the message
  \<open>Could not load level <id>\<close>, leaves the cache as it was and without an entry for \<open>id\<close>,
  and happens only when the import was rejected or the document failed the validation.
  With no cached entry such a level file always makes the load fail.  A load that succeeds
  returns the cached object or the whole imported object, which passed the validation.
\<close>

theorem loadLevel_failure:
  "(fst (loadLevel modules lid st) = Inl e \<longrightarrow>
      e = Error (''Could not load level '' @ lid)
      \<and> levelCache (snd (loadLevel modules lid st)) = levelCache st
      \<and> levelCache (snd (loadLevel modules lid st)) lid = None
      \<and> (case modules lid of None \<Rightarrow> True | Some lv \<Rightarrow> \<not> validateLevelData (contents lv)))
   \<and> (levelCache st lid = None
       \<and> (case modules lid of None \<Rightarrow> True | Some lv \<Rightarrow> \<not> validateLevelData (contents lv)) \<longrightarrow>
      fst (loadLevel modules lid st) = Inl (Error (''Could not load level '' @ lid)))
   \<and> (fst (loadLevel modules lid st) = Inr v \<longrightarrow>
      levelCache st lid = Some v \<or> (modules lid = Some v \<and> validateLevelData (contents v)))"
  using loadLevel_fails [of modules lid st e] loadLevel_must_fail [of st lid modules]
        loadLevel_whole [of modules lid st v]
  by simp

text \<open>
  A level document that passes the validation, with two collectibles that share the id
  \<open>coin\<close>, and the level files of a game that has this level only.
\<close>

definition exampleDocument :: json where
  "exampleDocument =
     JObj [(''id'', JStr ''wind_01''), (''name'', JStr ''Brisa Suave''),
           (''description'', JStr ''first level''), (''difficulty'', JNum 1),
           (''timeGoalSeconds'', JNum 60),
           (''playerSpawn'', JObj [(''x'', JNum 50), (''y'', JNum 500)]),
           (''goal'', JObj [(''x'', JNum 750), (''y'', JNum 500), (''radius'', JNum 16)]),
           (''platforms'', JArr []), (''hazards'', JArr []),
           (''collectibles'',
              JArr [JObj [(''x'', JNum 100), (''y'', JNum 400), (''id'', JStr ''coin'')],
                    JObj [(''x'', JNum 200), (''y'', JNum 400), (''id'', JStr ''coin'')]]),
           (''windZones'', JArr []), (''movingPlatforms'', JArr []),
           (''checkpoints'', JArr []), (''hints'', JArr [])]"

definition exampleObject :: LevelObject where
  "exampleObject = \<lparr>address = 0, contents = exampleDocument\<rparr>"

definition exampleModules :: "string \<rightharpoonup> LevelObject" where
  "exampleModules = [''wind_01'' \<mapsto> exampleObject, ''broken'' \<mapsto> \<lparr>address = 1, contents = JNull\<rparr>]"

lemma exampleDocument_valid: "validateLevelData exampleDocument"
  by (simp add: exampleDocument_def validateLevelData_def isVector2_def isGoal_def
        isCollectible_def)

lemma exampleLoad:
  "loadLevel exampleModules ''wind_01'' initialLoader =
     (Inr exampleObject,
      \<lparr>levelCache = [''wind_01'' \<mapsto> exampleObject],
       effects = [Import ''wind_01'', Validate ''wind_01'']\<rparr>)"
  using exampleDocument_valid
  by (simp add: loadLevel_def tryLoad_def initialLoader_def exampleModules_def exampleObject_def
        Let_def)

text \<open>Loading the example level twice: one import, one validation, the same object.\<close>

theorem loadLevel_cached_witness:
  "loadLevel exampleModules ''wind_01'' initialLoader =
     (Inr exampleObject,
      \<lparr>levelCache = [''wind_01'' \<mapsto> exampleObject],
       effects = [Import ''wind_01'', Validate ''wind_01'']\<rparr>)
   \<and> loadLevel Map.empty ''wind_01''
        \<lparr>levelCache = [''wind_01'' \<mapsto> exampleObject],
         effects = [Import ''wind_01'', Validate ''wind_01'']\<rparr> =
     (Inr exampleObject,
      \<lparr>levelCache = [''wind_01'' \<mapsto> exampleObject],
       effects = [Import ''wind_01'', Validate ''wind_01'']\<rparr>)"
  using loadLevel_cached [OF exampleLoad, of Map.empty Map.empty "[]"] exampleLoad
  by simp

text \<open>A level file that does not exist, and one whose document is \<open>null\<close>.\<close>

theorem loadLevel_failure_witness:
  "fst (loadLevel exampleModules ''wind_77'' initialLoader)
     = Inl (Error ''Could not load level wind_77'')
   \<and> levelCache (snd (loadLevel exampleModules ''wind_77'' initialLoader)) ''wind_77'' = None
   \<and> fst (loadLevel exampleModules ''broken'' initialLoader)
     = Inl (Error ''Could not load level broken'')
   \<and> levelCache (snd (loadLevel exampleModules ''broken'' initialLoader)) = Map.empty"
proof -
  have c: "levelCache initialLoader = Map.empty"
    by (simp add: initialLoader_def)
  have m: "exampleModules ''wind_77'' = None"
    by (simp add: exampleModules_def)
  have b: "exampleModules ''broken'' = Some \<lparr>address = 1, contents = JNull\<rparr>"
    by (simp add: exampleModules_def)
  have v: "\<not> validateLevelData JNull"
    by (simp add: validateLevelData_def)
  have 1: "fst (loadLevel exampleModules ''wind_77'' initialLoader)
             = Inl (Error ''Could not load level wind_77'')"
    using loadLevel_failure [of exampleModules "''wind_77''" initialLoader, THEN conjunct2, THEN conjunct1] c m
    by simp
  have 2: "levelCache (snd (loadLevel exampleModules ''wind_77'' initialLoader)) ''wind_77'' = None"
    using loadLevel_failure [of exampleModules "''wind_77''" initialLoader
            "Error ''Could not load level wind_77''", THEN conjunct1] 1 c
    by simp
  have 3: "fst (loadLevel exampleModules ''broken'' initialLoader)
             = Inl (Error ''Could not load level broken'')"
    using loadLevel_failure [of exampleModules "''broken''" initialLoader, THEN conjunct2, THEN conjunct1] c b v
    by simp
  have 4: "levelCache (snd (loadLevel exampleModules ''broken'' initialLoader)) = Map.empty"
    using loadLevel_failure [of exampleModules "''broken''" initialLoader
            "Error ''Could not load level broken''", THEN conjunct1] 3 c
    by simp
  from 1 2 3 4 show ?thesis by simp
qed

lemma collectible_id: "isCollectible c \<Longrightarrow> stringOf (field c ''id'') \<noteq> None"
  by (cases "field c ''id''" rule: isString.cases) (simp_all add: isCollectible_def)

lemma valid_collectibles:
  assumes "validateLevelData level"
  shows "isArray (field level ''collectibles'')
       \<and> list_all isCollectible (elements (field level ''collectibles''))"
  using assms by (simp add: validateLevelData_def split: if_splits)

lemma valid_collectible_ids:
  assumes "validateLevelData level"
  shows "list_all (\<lambda>i. i \<noteq> None) (collectibleIds level)"
  using valid_collectibles [OF assms]
  by (auto simp: collectibleIds_def list_all_iff dest: collectible_id)

lemma loadLevel_cache_valid:
  assumes "\<forall>v \<in> ran (levelCache st). validateLevelData (contents v)"
  shows "\<forall>v \<in> ran (levelCache (snd (loadLevel modules lid st))). validateLevelData (contents v)"
  using assms
  by (auto simp: loadLevel_def tryLoad_def Let_def ran_def split: option.splits if_splits)

lemma loadAll_cache_valid:
  assumes "\<forall>v \<in> ran (levelCache st). validateLevelData (contents v)"
  shows "\<forall>v \<in> ran (levelCache (loadAll modules lids st)). validateLevelData (contents v)"
  using assms
proof (induction lids arbitrary: st)
  case Nil
  then show ?case by simp
next
  case (Cons lid lids)
  show ?case
    using Cons.IH [OF loadLevel_cache_valid [OF Cons.prems]] by simp
qed

lemma loaded_valid:
  assumes "fst (loadLevel modules lid (loadAll modules' lids initialLoader)) = Inr v"
  shows "validateLevelData (contents v)"
proof -
  have "\<forall>v \<in> ran (levelCache initialLoader). validateLevelData (contents v)"
    by (simp add: initialLoader_def)
  then have "\<forall>v \<in> ran (levelCache (loadAll modules' lids initialLoader)). validateLevelData (contents v)"
    by (rule loadAll_cache_valid)
  with loadLevel_whole [OF assms] show ?thesis
    by (auto simp: ran_def)
qed

text \<open>
  Claim C7, as amended.  In every level document accepted by \<open>validateLevelData\<close>, and
  hence in every level object returned by \<open>loadLevel\<close> in a session that starts with the
  empty cache, \<open>collectibles\<close> is an array whose entries are objects with numbers \<open>x\<close>, \<open>y\<close>
  and a string \<open>id\<close>.  Nothing is checked about two entries having different ids.
\<close>

theorem validateLevelData_collectibles:
  "(validateLevelData level \<longrightarrow>
      isArray (field level ''collectibles'')
      \<and> list_all isCollectible (elements (field level ''collectibles''))
      \<and> list_all (\<lambda>i. i \<noteq> None) (collectibleIds level))
   \<and> (fst (loadLevel modules lid (loadAll modules' lids initialLoader)) = Inr v \<longrightarrow>
      validateLevelData (contents v)
      \<and> list_all (\<lambda>i. i \<noteq> None) (collectibleIds (contents v)))"
  using valid_collectibles [of level] valid_collectible_ids [of level]
        loaded_valid [of modules lid modules' lids v] valid_collectible_ids [of "contents v"]
  by blast

text \<open>The example document is accepted and loaded.\<close>

theorem validateLevelData_collectibles_witness:
  "validateLevelData exampleDocument
   \<and> fst (loadLevel exampleModules ''wind_01'' (loadAll exampleModules [] initialLoader))
       = Inr exampleObject
   \<and> list_all isCollectible (elements (field exampleDocument ''collectibles''))
   \<and> list_all (\<lambda>i. i \<noteq> None) (collectibleIds (contents exampleObject))"
  using validateLevelData_collectibles
          [of exampleDocument exampleModules "''wind_01''" exampleModules "[]" exampleObject]
        exampleDocument_valid exampleLoad
  by simp

text \<open>
  Claim C7 as stated fails: the example document is accepted by \<open>validateLevelData\<close> and
  returned by \<open>loadLevel\<close>, and its two collectibles have the same id.
\<close>

theorem collectible_ids_counterexample:
  "validateLevelData exampleDocument
   \<and> fst (loadLevel exampleModules ''wind_01'' initialLoader) = Inr exampleObject
   \<and> contents exampleObject = exampleDocument
   \<and> collectibleIds exampleDocument = [Some ''coin'', Some ''coin'']
   \<and> \<not> distinct (collectibleIds exampleDocument)"
proof -
  have "collectibleIds exampleDocument = [Some ''coin'', Some ''coin'']"
    by (simp add: collectibleIds_def exampleDocument_def)
  then show ?thesis
    using exampleDocument_valid exampleLoad by (simp add: exampleObject_def)
qed

section \<open>Event channel (events.ts)\<close>

text \<open>
  A callback is identified by the function object that was registered: two registrations
  are of the same callback when the identities agree.

  A \<open>Set\<close> of callbacks is its list of entries in insertion order.  Deleting an element
  empties its entry (\<open>None\<close>) and keeps the positions of the others, adding a new element
  appends an entry: this is how the language defines \<open>Set\<close>, and it is what a traversal
  that is under way observes.  \<open>events\<close> maps an event name to its set.
\<close>

type_synonym callback = nat

type_synonym callbacks = "callback option list"

type_synonym events = "string \<rightharpoonup> callbacks"

definition setAdd :: "callback \<Rightarrow> callbacks \<Rightarrow> callbacks" where
  "setAdd c s = (if Some c \<in> set s then s else s @ [Some c])"

definition setDelete :: "callback \<Rightarrow> callbacks \<Rightarrow> callbacks" where
  "setDelete c s = map (\<lambda>x. if x = Some c then None else x) s"

text \<open>The elements of a set, in insertion order.\<close>

fun members :: "callbacks \<Rightarrow> callback list" where
  "members [] = []"
| "members (None # s) = members s"
| "members (Some c # s) = c # members s"

definition on :: "string \<Rightarrow> callback \<Rightarrow> events \<Rightarrow> events" where
  "on event c evs =
     (let evs1 = (if evs event = None then evs(event \<mapsto> []) else evs)
      in case evs1 event of
           None \<Rightarrow> evs1
         | Some s \<Rightarrow> evs1(event \<mapsto> setAdd c s))"

definition off :: "string \<Rightarrow> callback \<Rightarrow> events \<Rightarrow> events" where
  "off event c evs =
     (case evs event of
        None \<Rightarrow> evs
      | Some s \<Rightarrow> evs(event \<mapsto> setDelete c s))"

text \<open>
  \<open>removeAllListeners(event?)\<close>: the condition \<open>if (event)\<close> is false for a missing
  argument and for the empty string.
\<close>

definition removeAllListeners :: "string option \<Rightarrow> events \<Rightarrow> events" where
  "removeAllListeners event evs =
     (case event of
        None \<Rightarrow> Map.empty
      | Some e \<Rightarrow> if e = [] then Map.empty else evs(e := None))"

text \<open>The callbacks registered for an event, in registration order.\<close>

definition listeners :: "events \<Rightarrow> string \<Rightarrow> callback list" where
  "listeners evs event = (case evs event of None \<Rightarrow> [] | Some s \<Rightarrow> members s)"

text \<open>
  A callback is any function.  Of what it does when it is invoked with a payload, the
  channel sees the calls of \<open>on\<close> and \<open>off\<close> that it makes while it runs, in order, and
  whether it then returns or throws.  (Callbacks that call \<open>emit\<close> or
  \<open>removeAllListeners\<close>, or that never return, are not modelled.)
\<close>

datatype registration = On string callback | Off string callback

datatype outcome = Returns "registration list" | Throws "registration list"

fun eventOf :: "registration \<Rightarrow> string" where
  "eventOf (On e c) = e"
| "eventOf (Off e c) = e"

fun registrations :: "outcome \<Rightarrow> registration list" where
  "registrations (Returns rs) = rs"
| "registrations (Throws rs) = rs"

fun throws :: "outcome \<Rightarrow> bool" where
  "throws (Returns rs) = False"
| "throws (Throws rs) = True"

fun perform :: "registration list \<Rightarrow> events \<Rightarrow> events" where
  "perform [] evs = evs"
| "perform (On e c # rs) evs = perform rs (on e c evs)"
| "perform (Off e c # rs) evs = perform rs (off e c evs)"

text \<open>
  How a call of \<open>emit\<close> ends: it returns, or the exception of a callback leaves it
  (\<open>emit\<close> and the traversal catch nothing).
\<close>

datatype ending = Completed | Threw callback

text \<open>
  \<open>callbacks.forEach((callback) => callback(data))\<close> on the set of \<open>event\<close>, from entry
  \<open>i\<close> on.  The traversal goes through the entries of the set as it is when each entry is
  reached: an entry emptied before its turn is skipped, one appended meanwhile is visited.
  A callback that throws ends the traversal: the entries after it are not visited.
  The traversal can go on forever (a callback that removes and registers itself again),
  so it takes a bound on the number of entries it may visit and returns \<open>None\<close> when
  that is used up.  The result is the channel afterwards, the invocations made, each a
  callback with the payload it received, oldest first, and how the traversal ended.
\<close>

fun forEach ::
  "nat \<Rightarrow> (callback \<Rightarrow> 'd \<Rightarrow> outcome) \<Rightarrow> string \<Rightarrow> 'd \<Rightarrow> nat \<Rightarrow> events \<Rightarrow>
     (callback \<times> 'd) list \<Rightarrow> (events \<times> (callback \<times> 'd) list \<times> ending) option" where
  "forEach 0 act event dat i evs made = None"
| "forEach (Suc n) act event dat i evs made =
     (case evs event of
        None \<Rightarrow> Some (evs, made, Completed)
      | Some s \<Rightarrow>
          if i < length s then
            (case s ! i of
               None \<Rightarrow> forEach n act event dat (i + 1) evs made
             | Some c \<Rightarrow>
                 (case act c dat of
                    Returns rs \<Rightarrow>
                      forEach n act event dat (i + 1) (perform rs evs) (made @ [(c, dat)])
                  | Throws rs \<Rightarrow> Some (perform rs evs, made @ [(c, dat)], Threw c)))
          else Some (evs, made, Completed))"

definition emit ::
  "nat \<Rightarrow> (callback \<Rightarrow> 'd \<Rightarrow> outcome) \<Rightarrow> string \<Rightarrow> 'd \<Rightarrow> events \<Rightarrow>
     (events \<times> (callback \<times> 'd) list \<times> ending) option" where
  "emit n act event dat evs =
     (case evs event of
        None \<Rightarrow> Some (evs, [], Completed)
      | Some s \<Rightarrow> forEach n act event dat 0 evs [])"

text \<open>
  Of a list of callbacks invoked in order, those that get their turn when some of them
  throw: all up to and including the first that throws.  And how the traversal then ends.
\<close>

fun reached :: "(callback \<Rightarrow> bool) \<Rightarrow> callback list \<Rightarrow> callback list" where
  "reached thr [] = []"
| "reached thr (c # cs) = (if thr c then [c] else c # reached thr cs)"

fun endingOf :: "(callback \<Rightarrow> bool) \<Rightarrow> callback list \<Rightarrow> ending" where
  "endingOf thr [] = Completed"
| "endingOf thr (c # cs) = (if thr c then Threw c else endingOf thr cs)"

section \<open>Properties of the event channel\<close>

lemma members_append: "members (s @ t) = members s @ members t"
  by (induction s rule: members.induct) simp_all

lemma members_set: "(c \<in> set (members s)) = (Some c \<in> set s)"
  by (induction s rule: members.induct) auto

lemma members_setAdd:
  "members (setAdd c s) = (if c \<in> set (members s) then members s else members s @ [c])"
  by (simp add: setAdd_def members_append members_set)

lemma members_setDelete: "members (setDelete c s) = filter (\<lambda>x. x \<noteq> c) (members s)"
  by (induction s rule: members.induct) (simp_all add: setDelete_def)

lemma listeners_on:
  "listeners (on e c evs) e =
     (if c \<in> set (listeners evs e) then listeners evs e else listeners evs e @ [c])"
  by (cases "evs e") (simp_all add: listeners_def on_def Let_def members_setAdd)

lemma listeners_off: "listeners (off e c evs) e = filter (\<lambda>x. x \<noteq> c) (listeners evs e)"
  by (cases "evs e") (simp_all add: listeners_def off_def members_setDelete)

lemma on_other: "k \<noteq> e \<Longrightarrow> on k c evs e = evs e"
  by (cases "evs k") (simp_all add: on_def Let_def)

lemma off_other: "k \<noteq> e \<Longrightarrow> off k c evs e = evs e"
  by (cases "evs k") (simp_all add: off_def)

lemma perform_other: "\<forall>r \<in> set rs. eventOf r \<noteq> e \<Longrightarrow> perform rs evs e = evs e"
  by (induction rs evs rule: perform.induct) (simp_all add: on_other off_other)

lemma perform_append: "perform (rs @ rs') evs = perform rs' (perform rs evs)"
  by (induction rs evs rule: perform.induct) simp_all

lemma distinct_on: "distinct (listeners evs e) \<Longrightarrow> distinct (listeners (on k c evs) e)"
proof (cases "k = e")
  case True
  assume "distinct (listeners evs e)"
  with True show ?thesis by (simp add: listeners_on)
next
  case False
  assume "distinct (listeners evs e)"
  with False show ?thesis by (simp add: listeners_def on_other)
qed

lemma distinct_off: "distinct (listeners evs e) \<Longrightarrow> distinct (listeners (off k c evs) e)"
proof (cases "k = e")
  case True
  assume "distinct (listeners evs e)"
  with True show ?thesis by (simp add: listeners_off)
next
  case False
  assume "distinct (listeners evs e)"
  with False show ?thesis by (simp add: listeners_def off_other)
qed

lemma distinct_perform:
  "distinct (listeners evs e) \<Longrightarrow> distinct (listeners (perform rs evs) e)"
  by (induction rs evs rule: perform.induct) (simp_all add: distinct_on distinct_off)

lemma reached_all: "\<forall>c \<in> set cs. \<not> thr c \<Longrightarrow> reached thr cs = cs \<and> endingOf thr cs = Completed"
  by (induction cs) simp_all

lemma forEach_quiet:
  assumes "evs e = Some s"
    and "\<forall>c \<in> set (members (drop i s)). \<forall>r \<in> set (registrations (act c d)). eventOf r \<noteq> e"
    and "length s - i < n"
  shows "forEach n act e d i evs made =
           Some (perform (concat (map (\<lambda>c. registrations (act c d))
                                   (reached (\<lambda>c. throws (act c d)) (members (drop i s))))) evs,
                 made @ map (\<lambda>c. (c, d)) (reached (\<lambda>c. throws (act c d)) (members (drop i s))),
                 endingOf (\<lambda>c. throws (act c d)) (members (drop i s)))"
  using assms
proof (induction n arbitrary: i evs made)
  case 0
  then show ?case by simp
next
  case (Suc n)
  show ?case
  proof (cases "i < length s")
    case False
    then show ?thesis using Suc.prems(1) by simp
  next
    case True
    then have dr: "drop i s = s ! i # drop (Suc i) s"
      by (simp add: Cons_nth_drop_Suc)
    have fuel: "length s - Suc i < n"
      using Suc.prems(3) True by simp
    show ?thesis
    proof (cases "s ! i")
      case None
      have q: "\<forall>c \<in> set (members (drop (Suc i) s)).
                 \<forall>r \<in> set (registrations (act c d)). eventOf r \<noteq> e"
        using Suc.prems(2) by (simp add: dr None)
      show ?thesis
        using Suc.IH [of evs "Suc i" made] q fuel True Suc.prems(1)
        by (simp add: dr None)
    next
      case (Some c)
      have q: "\<forall>c \<in> set (members (drop (Suc i) s)).
                 \<forall>r \<in> set (registrations (act c d)). eventOf r \<noteq> e"
        using Suc.prems(2) by (simp add: dr Some)
      show ?thesis
      proof (cases "act c d")
        case (Returns rs)
        have "\<forall>r \<in> set rs. eventOf r \<noteq> e"
          using Suc.prems(2) by (simp add: dr Some Returns)
        then have e': "perform rs evs e = Some s"
          using perform_other [of rs e evs] Suc.prems(1) by simp
        show ?thesis
          using Suc.IH [of "perform rs evs" "Suc i" "made @ [(c, d)]"] e' q fuel True Suc.prems(1)
          by (simp add: dr Some Returns perform_append)
      next
        case (Throws rs)
        show ?thesis
          using True Suc.prems(1) by (simp add: dr Some Throws)
      qed
    qed
  qed
qed

lemma emit_quiet:
  assumes "evs e = Some s"
    and "\<forall>c \<in> set (members s). \<forall>r \<in> set (registrations (act c d)). eventOf r \<noteq> e"
    and "length s < n"
  shows "emit n act e d evs =
           Some (perform (concat (map (\<lambda>c. registrations (act c d))
                                   (reached (\<lambda>c. throws (act c d)) (members s)))) evs,
                 map (\<lambda>c. (c, d)) (reached (\<lambda>c. throws (act c d)) (members s)),
                 endingOf (\<lambda>c. throws (act c d)) (members s))"
  using forEach_quiet [of evs e s 0 act d n "[]"] assms by (simp add: emit_def)

text \<open>
  Claim C8, as amended.  \<open>emit(e, d)\<close> on an event without a set invokes nothing.
  Otherwise let no callback registered for \<open>e\<close> call \<open>on\<close> or \<open>off\<close> for \<open>e\<close> when it is
  invoked with \<open>d\<close>.  If moreover none of them throws, \<open>emit(e, d)\<close> returns (any bound
  above the number of entries is enough) and has invoked exactly the callbacks registered
  for \<open>e\<close> when it was called, in registration order, each once and with the payload \<open>d\<close>.
  If some of them throw, it has invoked, in registration order and each once, those up to
  and including the first that throws, none of the later ones, and that exception leaves
  \<open>emit\<close>.  Registering a callback that is registered already changes nothing, a new one
  comes last, \<open>off\<close> takes the callback out, registrations under another key do not matter,
  and so the callbacks registered for a key are always pairwise different.
\<close>

theorem emit_delivers:
  "(evs e = None \<longrightarrow> emit n act e d evs = Some (evs, [], Completed) \<and> listeners evs e = [])
   \<and> (evs e = Some s
        \<and> (\<forall>c \<in> set (listeners evs e). \<forall>r \<in> set (registrations (act c d)). eventOf r \<noteq> e)
        \<and> (\<forall>c \<in> set (listeners evs e). \<not> throws (act c d))
        \<and> length s < n \<longrightarrow>
        emit n act e d evs =
          Some (perform (concat (map (\<lambda>c. registrations (act c d)) (listeners evs e))) evs,
                map (\<lambda>c. (c, d)) (listeners evs e), Completed))
   \<and> (evs e = Some s
        \<and> (\<forall>c \<in> set (listeners evs e). \<forall>r \<in> set (registrations (act c d)). eventOf r \<noteq> e)
        \<and> length s < n \<longrightarrow>
        emit n act e d evs =
          Some (perform (concat (map (\<lambda>c. registrations (act c d))
                                  (reached (\<lambda>c. throws (act c d)) (listeners evs e)))) evs,
                map (\<lambda>c. (c, d)) (reached (\<lambda>c. throws (act c d)) (listeners evs e)),
                endingOf (\<lambda>c. throws (act c d)) (listeners evs e)))
   \<and> listeners (on e c evs) e =
        (if c \<in> set (listeners evs e) then listeners evs e else listeners evs e @ [c])
   \<and> listeners (off e c evs) e = filter (\<lambda>x. x \<noteq> c) (listeners evs e)
   \<and> (k \<noteq> e \<longrightarrow> listeners (on k c evs) e = listeners evs e
                \<and> listeners (off k c evs) e = listeners evs e)
   \<and> distinct (listeners (perform rs Map.empty) e)"
proof -
  have a: "evs e = None \<longrightarrow> emit n act e d evs = Some (evs, [], Completed) \<and> listeners evs e = []"
    by (simp add: emit_def listeners_def)
  have b2: "evs e = Some s
        \<and> (\<forall>c \<in> set (listeners evs e). \<forall>r \<in> set (registrations (act c d)). eventOf r \<noteq> e)
        \<and> length s < n \<longrightarrow>
        emit n act e d evs =
          Some (perform (concat (map (\<lambda>c. registrations (act c d))
                                  (reached (\<lambda>c. throws (act c d)) (listeners evs e)))) evs,
                map (\<lambda>c. (c, d)) (reached (\<lambda>c. throws (act c d)) (listeners evs e)),
                endingOf (\<lambda>c. throws (act c d)) (listeners evs e))"
  proof
    assume h: "evs e = Some s
        \<and> (\<forall>c \<in> set (listeners evs e). \<forall>r \<in> set (registrations (act c d)). eventOf r \<noteq> e)
        \<and> length s < n"
    then have l: "listeners evs e = members s"
      by (simp add: listeners_def)
    from h show "emit n act e d evs =
          Some (perform (concat (map (\<lambda>c. registrations (act c d))
                                  (reached (\<lambda>c. throws (act c d)) (listeners evs e)))) evs,
                map (\<lambda>c. (c, d)) (reached (\<lambda>c. throws (act c d)) (listeners evs e)),
                endingOf (\<lambda>c. throws (act c d)) (listeners evs e))"
      unfolding l by (intro emit_quiet) simp_all
  qed
  have b1: "evs e = Some s
        \<and> (\<forall>c \<in> set (listeners evs e). \<forall>r \<in> set (registrations (act c d)). eventOf r \<noteq> e)
        \<and> (\<forall>c \<in> set (listeners evs e). \<not> throws (act c d))
        \<and> length s < n \<longrightarrow>
        emit n act e d evs =
          Some (perform (concat (map (\<lambda>c. registrations (act c d)) (listeners evs e))) evs,
                map (\<lambda>c. (c, d)) (listeners evs e), Completed)"
  proof
    assume h: "evs e = Some s
        \<and> (\<forall>c \<in> set (listeners evs e). \<forall>r \<in> set (registrations (act c d)). eventOf r \<noteq> e)
        \<and> (\<forall>c \<in> set (listeners evs e). \<not> throws (act c d))
        \<and> length s < n"
    then have r: "reached (\<lambda>c. throws (act c d)) (listeners evs e) = listeners evs e
        \<and> endingOf (\<lambda>c. throws (act c d)) (listeners evs e) = Completed"
      by (intro reached_all) simp
    from h b2 have "emit n act e d evs =
          Some (perform (concat (map (\<lambda>c. registrations (act c d))
                                  (reached (\<lambda>c. throws (act c d)) (listeners evs e)))) evs,
                map (\<lambda>c. (c, d)) (reached (\<lambda>c. throws (act c d)) (listeners evs e)),
                endingOf (\<lambda>c. throws (act c d)) (listeners evs e))"
      by blast
    then show "emit n act e d evs =
          Some (perform (concat (map (\<lambda>c. registrations (act c d)) (listeners evs e))) evs,
                map (\<lambda>c. (c, d)) (listeners evs e), Completed)"
      by (simp only: r)
  qed
  have c: "k \<noteq> e \<longrightarrow> listeners (on k c evs) e = listeners evs e
                \<and> listeners (off k c evs) e = listeners evs e"
    by (simp add: listeners_def on_other off_other)
  have "distinct (listeners Map.empty e)"
    by (simp add: listeners_def)
  then have d: "distinct (listeners (perform rs Map.empty) e)"
    by (rule distinct_perform)
  show ?thesis
    by (intro conjI) (rule a, rule b1, rule b2, rule listeners_on, rule listeners_off, rule c, rule d)
qed

text \<open>
  A channel after some registrations and removals, callback 1 registered twice; and
  callbacks that leave the channel alone and return, as those of the HUD do.
\<close>

definition exampleEvents :: events where
  "exampleEvents =
     perform [On ''player-died'' 1, On ''player-died'' 2, On ''player-died'' 1,
              On ''level-completed'' 3, Off ''player-died'' 2, On ''player-died'' 4] Map.empty"

definition quietCallbacks :: "callback \<Rightarrow> nat \<Rightarrow> outcome" where
  "quietCallbacks c d = Returns []"

text \<open>Callbacks of which number 1 throws.\<close>

definition throwingCallbacks :: "callback \<Rightarrow> nat \<Rightarrow> outcome" where
  "throwingCallbacks c d = (if c = 1 then Throws [] else Returns [])"

lemma exampleEvents_died:
  "exampleEvents ''player-died'' = Some [Some 1, None, Some 4]"
  by (simp add: exampleEvents_def on_def off_def setAdd_def setDelete_def Let_def)

text \<open>
  Emitting \<open>player-died\<close> on the example channel invokes callbacks 1 and 4, in this order;
  when callback 1 throws, callback 4 is not invoked.
\<close>

theorem emit_delivers_witness:
  "exampleEvents ''player-died'' = Some [Some 1, None, Some 4]
   \<and> listeners exampleEvents ''player-died'' = [1, 4]
   \<and> list_all (\<lambda>c. list_all (\<lambda>r. eventOf r \<noteq> ''player-died'') (registrations (quietCallbacks c 7)))
        (listeners exampleEvents ''player-died'')
   \<and> list_all (\<lambda>c. \<not> throws (quietCallbacks c 7)) (listeners exampleEvents ''player-died'')
   \<and> emit 4 quietCallbacks ''player-died'' 7 exampleEvents
       = Some (exampleEvents, [(1, 7), (4, 7)], Completed)
   \<and> emit 4 throwingCallbacks ''player-died'' 7 exampleEvents
       = Some (exampleEvents, [(1, 7)], Threw 1)"
proof -
  have l: "listeners exampleEvents ''player-died'' = [1, 4]"
    by (simp add: listeners_def exampleEvents_died)
  have 1: "emit 4 quietCallbacks ''player-died'' 7 exampleEvents =
          Some (perform (concat (map (\<lambda>c. registrations (quietCallbacks c 7))
                                  (listeners exampleEvents ''player-died''))) exampleEvents,
                map (\<lambda>c. (c, 7)) (listeners exampleEvents ''player-died''), Completed)"
    using emit_delivers [of exampleEvents "''player-died''" 4 quietCallbacks 7
            "[Some 1, None, Some 4]", THEN conjunct2, THEN conjunct1]
          exampleEvents_died
    by (simp add: quietCallbacks_def)
  have 2: "emit 4 throwingCallbacks ''player-died'' 7 exampleEvents =
          Some (perform (concat (map (\<lambda>c. registrations (throwingCallbacks c 7))
                  (reached (\<lambda>c. throws (throwingCallbacks c 7))
                     (listeners exampleEvents ''player-died'')))) exampleEvents,
                map (\<lambda>c. (c, 7)) (reached (\<lambda>c. throws (throwingCallbacks c 7))
                     (listeners exampleEvents ''player-died'')),
                endingOf (\<lambda>c. throws (throwingCallbacks c 7)) (listeners exampleEvents ''player-died''))"
    using emit_delivers [of exampleEvents "''player-died''" 4 throwingCallbacks 7
            "[Some 1, None, Some 4]", THEN conjunct2, THEN conjunct2, THEN conjunct1]
          exampleEvents_died
    by (simp add: throwingCallbacks_def)
  from 1 2 show ?thesis
    using l exampleEvents_died by (simp add: quietCallbacks_def throwingCallbacks_def)
qed

text \<open>A callback, number 1, that registers callback 2 for the event it is invoked for.\<close>

definition subscribingCallbacks :: "callback \<Rightarrow> nat \<Rightarrow> outcome" where
  "subscribingCallbacks c d = (if c = 1 then Returns [On ''player-died'' 2] else Returns [])"

text \<open>
  Claim C8 as stated fails in two ways.  With callback 1 alone registered for
  \<open>player-died\<close>, the emission invokes callback 1 and then callback 2, which callback 1
  registered during the emission and which was not registered when \<open>emit\<close> was called.
  And on the example channel, where callbacks 1 and 4 are registered, an emission in which
  callback 1 throws invokes callback 1 only.
\<close>

theorem emit_exactly_counterexample:
  "listeners (on ''player-died'' 1 Map.empty) ''player-died'' = [1]
   \<and> map_option (fst \<circ> snd)
        (emit 5 subscribingCallbacks ''player-died'' 7 (on ''player-died'' 1 Map.empty))
       = Some [(1, 7), (2, 7)]
   \<and> map_option (map fst \<circ> fst \<circ> snd)
        (emit 5 subscribingCallbacks ''player-died'' 7 (on ''player-died'' 1 Map.empty))
       \<noteq> Some (listeners (on ''player-died'' 1 Map.empty) ''player-died'')
   \<and> listeners exampleEvents ''player-died'' = [1, 4]
   \<and> map_option (fst \<circ> snd) (emit 5 throwingCallbacks ''player-died'' 7 exampleEvents)
       = Some [(1, 7)]
   \<and> map_option (map fst \<circ> fst \<circ> snd) (emit 5 throwingCallbacks ''player-died'' 7 exampleEvents)
       \<noteq> Some (listeners exampleEvents ''player-died'')"
  by (simp add: emit_def listeners_def on_def setAdd_def Let_def subscribingCallbacks_def
        throwingCallbacks_def exampleEvents_died eval_nat_numeral)

end
